theory Spec2Isabelle
  imports Main "HOL-Library.Word"
begin

section \<open>Memory model\<close>

text \<open>
  The event class of \<^verbatim>\<open>rtc_event_audio_send_stream_config.cc\<close> owns its payload through a
  \<^verbatim>\<open>std::unique_ptr\<close>, and \<^verbatim>\<open>Copy()\<close> allocates with \<^verbatim>\<open>new\<close>. Claims about aliasing and
  ownership therefore need an explicit store. The store is a memory of finitely many cells;
  an address is the index of a cell, a cell is free (\<open>None\<close>) or holds one object. A pointer
  is an \<open>addr option\<close>, with \<open>None\<close> for \<^verbatim>\<open>nullptr\<close>.
\<close>

type_synonym addr = nat

text \<open>
  The ways in which the program stops instead of returning. None of them is a value the C++
  functions return: \<open>OutOfMemory\<close> is the failure of \<^verbatim>\<open>operator new\<close>, the other two are the
  dereference of a null pointer and of a pointer to no live object of the expected class.
\<close>

datatype failure = OutOfMemory | NullDereference | InvalidPointer

text \<open>
  Modelled from the spec: the enumeration \<^verbatim>\<open>RtcEvent::Type\<close> is declared in
  \<^verbatim>\<open>rtc_event.h\<close>, which is not among the sources. The specification describes it as a
  closed enumeration of event kinds and names these three; the source file uses only
  \<^verbatim>\<open>RtcEvent::Type::AudioSendStreamConfig\<close>.
\<close>

datatype RtcEvent_Type = AudioSendStreamConfig | VideoSendStreamConfig | RtpPacket

text \<open>
  The fields of an \<^verbatim>\<open>RtcEventAudioSendStreamConfig\<close> object: \<^verbatim>\<open>timestamp_us_\<close> (an
  \<^verbatim>\<open>int64_t\<close>, inherited from \<^verbatim>\<open>RtcEvent\<close>) and the owning pointer \<^verbatim>\<open>config_\<close>.
  A name of the logic cannot end in an underscore, so the fields are \<open>timestamp_us\<close> and
  \<open>config\<close> here.
\<close>

record RtcEventAudioSendStreamConfig =
  timestamp_us :: "64 word"
  config :: "addr option"

text \<open>
  The objects a cell can hold. The payload class \<^verbatim>\<open>rtclog::StreamConfig\<close> is declared in
  \<^verbatim>\<open>rtc_stream_config.h\<close>, which is not among the sources; its contents are the type
  parameter \<open>'cfg\<close>. \<open>RawStorage\<close> is storage obtained from \<^verbatim>\<open>operator new\<close> in which no
  object has been constructed yet.
\<close>

datatype 'cfg object =
    RawStorage
  | StreamConfig 'cfg
  | Event RtcEventAudioSendStreamConfig

type_synonym 'cfg heap = "'cfg object option list"

fun find_free :: "'cfg heap \<Rightarrow> addr option" where
  "find_free [] = None"
| "find_free (c # cs) =
     (case c of None \<Rightarrow> Some 0 | Some _ \<Rightarrow> map_option Suc (find_free cs))"

definition free_cells :: "'cfg heap \<Rightarrow> nat" where
  "free_cells h = length (filter Option.is_none h)"

text \<open>\<^verbatim>\<open>operator new\<close>: the first free cell, or the fatal failure when there is none.\<close>

definition operator_new :: "'cfg heap \<Rightarrow> failure + (addr \<times> 'cfg heap)" where
  "operator_new h =
     (case find_free h of
        None \<Rightarrow> Inl OutOfMemory
      | Some a \<Rightarrow> Inr (a, h[a := Some RawStorage]))"

definition operator_delete :: "'cfg heap \<Rightarrow> addr \<Rightarrow> 'cfg heap" where
  "operator_delete h a = h[a := None]"

text \<open>The destructor of a \<^verbatim>\<open>std::unique_ptr\<close>: deletes the object it owns, if any.\<close>

definition unique_ptr_dtor :: "'cfg heap \<Rightarrow> addr option \<Rightarrow> 'cfg heap" where
  "unique_ptr_dtor h p = (case p of None \<Rightarrow> h | Some a \<Rightarrow> operator_delete h a)"

text \<open>
  Move construction of a \<^verbatim>\<open>std::unique_ptr\<close>: the new pointer holds what the source held,
  and the source is left null. The result is (new pointer, source afterwards).
\<close>

definition unique_ptr_move :: "addr option \<Rightarrow> addr option \<times> addr option" where
  "unique_ptr_move p = (p, None)"

text \<open>
  Modelled from the spec: the copy constructor of \<^verbatim>\<open>rtclog::StreamConfig\<close>
  (\<^verbatim>\<open>rtc_stream_config.h\<close> is not among the sources). The specification requires of the
  payload type a value-copy construction that is structural, deep and independent of the
  source: the copy has the contents of the original.
\<close>

definition StreamConfig_copy :: "'cfg \<Rightarrow> 'cfg" where
  "StreamConfig_copy c = c"

text \<open>
  Modelled from the spec: \<^verbatim>\<open>rtc::MakeUnique<rtclog::StreamConfig>(x)\<close> of
  \<^verbatim>\<open>rtc_base/ptr_util.h\<close>, which is not among the sources: a \<^verbatim>\<open>unique_ptr\<close> to
  \<^verbatim>\<open>new rtclog::StreamConfig(x)\<close>, a freshly allocated copy of \<open>x\<close>.
\<close>

definition MakeUnique :: "'cfg heap \<Rightarrow> 'cfg \<Rightarrow> failure + (addr \<times> 'cfg heap)" where
  "MakeUnique h x =
     (case operator_new h of
        Inl f \<Rightarrow> Inl f
      | Inr (a, h1) \<Rightarrow> Inr (a, h1[a := Some (StreamConfig (StreamConfig_copy x))]))"

text \<open>Reading through a pointer to an event, and through a pointer to a payload.\<close>

definition load_event :: "'cfg heap \<Rightarrow> addr \<Rightarrow> failure + RtcEventAudioSendStreamConfig" where
  "load_event h p =
     (if p < length h then
        (case h ! p of Some (Event e) \<Rightarrow> Inr e | _ \<Rightarrow> Inl InvalidPointer)
      else Inl InvalidPointer)"

definition deref_config :: "'cfg heap \<Rightarrow> addr option \<Rightarrow> failure + 'cfg" where
  "deref_config h p =
     (case p of
        None \<Rightarrow> Inl NullDereference
      | Some a \<Rightarrow>
          (if a < length h then
             (case h ! a of Some (StreamConfig c) \<Rightarrow> Inr c | _ \<Rightarrow> Inl InvalidPointer)
           else Inl InvalidPointer))"


section \<open>The class RtcEventAudioSendStreamConfig\<close>

text \<open>
  \<^verbatim>\<open>RtcEventAudioSendStreamConfig(std::unique_ptr<rtclog::StreamConfig> config)
    : config_(std::move(config)) {}\<close>

  The base class is initialised by its default constructor. Modelled from the spec:
  \<^verbatim>\<open>RtcEvent::RtcEvent()\<close> is declared in \<^verbatim>\<open>rtc_event.h\<close>, which is not among the sources; the
  specification has the timestamp set once at construction to the capture time, here the
  clock reading \<open>now\<close>. The constructor builds the object in storage the caller provides, so
  it returns the fields; the second component is the parameter \<^verbatim>\<open>config\<close> (here
  \<open>config_arg\<close>) after the move.
\<close>

definition RtcEventAudioSendStreamConfig_ctor ::
  "64 word \<Rightarrow> addr option \<Rightarrow> RtcEventAudioSendStreamConfig \<times> addr option" where
  "RtcEventAudioSendStreamConfig_ctor now config_arg =
     (case unique_ptr_move config_arg of
        (held, config_after) \<Rightarrow> (\<lparr>timestamp_us = now, config = held\<rparr>, config_after))"

text \<open>
  \<^verbatim>\<open>RtcEventAudioSendStreamConfig(const RtcEventAudioSendStreamConfig& other)
    : RtcEvent(other.timestamp_us_),
      config_(rtc::MakeUnique<rtclog::StreamConfig>(*other.config_)) {}\<close>

  \<open>other\<close> is a reference, that is the address of a live event.
\<close>

definition RtcEventAudioSendStreamConfig_copy_ctor ::
  "'cfg heap \<Rightarrow> addr \<Rightarrow> failure + (RtcEventAudioSendStreamConfig \<times> 'cfg heap)" where
  "RtcEventAudioSendStreamConfig_copy_ctor h other =
     (case load_event h other of
        Inl f \<Rightarrow> Inl f
      | Inr o_fields \<Rightarrow>
          (case deref_config h (config o_fields) of
             Inl f \<Rightarrow> Inl f
           | Inr c \<Rightarrow>
               (case MakeUnique h c of
                  Inl f \<Rightarrow> Inl f
                | Inr (a, h1) \<Rightarrow>
                    Inr (\<lparr>timestamp_us = timestamp_us o_fields, config = Some a\<rparr>, h1))))"

text \<open>
  \<^verbatim>\<open>new RtcEventAudioSendStreamConfig(other)\<close>: storage from \<^verbatim>\<open>operator new\<close>, then the copy
  constructor builds the object in it.
\<close>

definition new_copy :: "'cfg heap \<Rightarrow> addr \<Rightarrow> failure + (addr \<times> 'cfg heap)" where
  "new_copy h other =
     (case operator_new h of
        Inl f \<Rightarrow> Inl f
      | Inr (p, h1) \<Rightarrow>
          (case RtcEventAudioSendStreamConfig_copy_ctor h1 other of
             Inl f \<Rightarrow> Inl f
           | Inr (d, h2) \<Rightarrow> Inr (p, h2[p := Some (Event d)])))"

text \<open>
  \<^verbatim>\<open>~RtcEventAudioSendStreamConfig() = default\<close>: destroys the member \<^verbatim>\<open>config_\<close>.
  \<open>delete_event\<close> is \<^verbatim>\<open>delete p\<close> on an event allocated with \<^verbatim>\<open>new\<close>, what the
  \<^verbatim>\<open>unique_ptr<RtcEvent>\<close> returned by \<^verbatim>\<open>Copy()\<close> does at the end of its life.
\<close>

definition RtcEventAudioSendStreamConfig_dtor :: "'cfg heap \<Rightarrow> addr \<Rightarrow> failure + 'cfg heap" where
  "RtcEventAudioSendStreamConfig_dtor h this =
     (case load_event h this of
        Inl f \<Rightarrow> Inl f
      | Inr e \<Rightarrow> Inr (unique_ptr_dtor h (config e)))"

definition delete_event :: "'cfg heap \<Rightarrow> addr \<Rightarrow> failure + 'cfg heap" where
  "delete_event h p =
     (case RtcEventAudioSendStreamConfig_dtor h p of
        Inl f \<Rightarrow> Inl f
      | Inr h1 \<Rightarrow> Inr (operator_delete h1 p))"

text \<open>
  \<^verbatim>\<open>RtcEvent::Type GetType() const { return RtcEvent::Type::AudioSendStreamConfig; }\<close>
  and \<^verbatim>\<open>bool IsConfigEvent() const { return true; }\<close>. Each returns its value and the
  memory as the call leaves it.
\<close>

definition GetType :: "'cfg heap \<Rightarrow> addr \<Rightarrow> RtcEvent_Type \<times> 'cfg heap" where
  "GetType h this = (AudioSendStreamConfig, h)"

definition IsConfigEvent :: "'cfg heap \<Rightarrow> addr \<Rightarrow> bool \<times> 'cfg heap" where
  "IsConfigEvent h this = (True, h)"

text \<open>
  \<^verbatim>\<open>std::unique_ptr<RtcEvent> Copy() const {
    auto config_copy = rtc::MakeUnique<rtclog::StreamConfig>(*config_);
    return rtc::WrapUnique<RtcEvent>(new RtcEventAudioSendStreamConfig(*this));
  }\<close>

  The local \<^verbatim>\<open>config_copy\<close> is destroyed when the function returns, after the returned
  pointer has been built. \<^verbatim>\<open>rtc::WrapUnique\<close> takes ownership of the pointer that \<^verbatim>\<open>new\<close>
  returned, so the result is the address of the new event.
\<close>

definition Copy :: "'cfg heap \<Rightarrow> addr \<Rightarrow> failure + (addr \<times> 'cfg heap)" where
  "Copy h this =
     (case load_event h this of
        Inl f \<Rightarrow> Inl f
      | Inr e \<Rightarrow>
          (case deref_config h (config e) of
             Inl f \<Rightarrow> Inl f
           | Inr c \<Rightarrow>
               (case MakeUnique h c of
                  Inl f \<Rightarrow> Inl f
                | Inr (config_copy, h1) \<Rightarrow>
                    (case new_copy h1 this of
                       Inl f \<Rightarrow> Inl f
                     | Inr (p, h2) \<Rightarrow> Inr (p, unique_ptr_dtor h2 (Some config_copy))))))"


section \<open>Observations and calls\<close>

text \<open>
  What a client can observe of the event at address \<open>p\<close>: its type tag, its configuration
  flag, its timestamp and the contents of its payload.
\<close>

definition observe ::
  "'cfg heap \<Rightarrow> addr \<Rightarrow> failure + (RtcEvent_Type \<times> bool \<times> 64 word \<times> (failure + 'cfg))" where
  "observe h p =
     (case load_event h p of
        Inl f \<Rightarrow> Inl f
      | Inr e \<Rightarrow>
          Inr (fst (GetType h p), fst (IsConfigEvent h p), timestamp_us e,
               deref_config h (config e)))"

text \<open>
  \<open>live_event h p a c\<close>: at \<open>p\<close> lives an event whose \<^verbatim>\<open>config_\<close> is the non-null pointer
  \<open>a\<close> to a live payload of contents \<open>c\<close>.
\<close>

definition live_event :: "'cfg heap \<Rightarrow> addr \<Rightarrow> addr \<Rightarrow> 'cfg \<Rightarrow> bool" where
  "live_event h p a c =
     (case load_event h p of
        Inl f \<Rightarrow> False
      | Inr e \<Rightarrow> config e = Some a \<and> deref_config h (Some a) = Inr c)"

text \<open>The public operations, and a client that calls them one after the other.\<close>

datatype call = CallGetType | CallIsConfigEvent | CallCopy

datatype answer = TypeAnswer RtcEvent_Type | BoolAnswer bool | EventAnswer addr

fun invoke :: "'cfg heap \<Rightarrow> addr \<Rightarrow> call \<Rightarrow> failure + (answer \<times> 'cfg heap)" where
  "invoke h this CallGetType = (case GetType h this of (t, h1) \<Rightarrow> Inr (TypeAnswer t, h1))"
| "invoke h this CallIsConfigEvent =
     (case IsConfigEvent h this of (b, h1) \<Rightarrow> Inr (BoolAnswer b, h1))"
| "invoke h this CallCopy =
     (case Copy h this of Inl f \<Rightarrow> Inl f | Inr (p, h1) \<Rightarrow> Inr (EventAnswer p, h1))"

fun invoke_all :: "'cfg heap \<Rightarrow> addr \<Rightarrow> call list \<Rightarrow> failure + (answer list \<times> 'cfg heap)" where
  "invoke_all h this [] = Inr ([], h)"
| "invoke_all h this (c # cs) =
     (case invoke h this c of
        Inl f \<Rightarrow> Inl f
      | Inr (r, h1) \<Rightarrow>
          (case invoke_all h1 this cs of
             Inl f \<Rightarrow> Inl f
           | Inr (rs, h2) \<Rightarrow> Inr (r # rs, h2)))"


text \<open>
  What a call may answer: \<open>expected c r\<close> holds when \<open>r\<close> is the answer the class promises
  for the call \<open>c\<close>.
\<close>

fun expected :: "call \<Rightarrow> answer \<Rightarrow> bool" where
  "expected CallGetType r = (r = TypeAnswer AudioSendStreamConfig)"
| "expected CallIsConfigEvent r = (r = BoolAnswer True)"
| "expected CallCopy r = (case r of EventAnswer p \<Rightarrow> True | _ \<Rightarrow> False)"

text \<open>
  \<open>live_cells_kept h h'\<close>: the memory \<open>h'\<close> has the cells of \<open>h\<close>, and every cell that
  holds an object in \<open>h\<close> holds the same object in \<open>h'\<close>.
\<close>

definition live_cells_kept :: "'cfg heap \<Rightarrow> 'cfg heap \<Rightarrow> bool" where
  "live_cells_kept h h' = list_all2 (\<lambda>c c'. Option.is_none c \<or> c' = c) h h'"


section \<open>A scenario\<close>

text \<open>
  A payload for stream id 42 with the codec list \<open>[opus]\<close>, owned by an event built at
  time 1000 and stored in cell 0 of a memory with four free cells; the same in a memory
  with only two free cells; and an event built from a null pointer.
\<close>

definition scenario_payload :: "nat \<times> string list" where
  "scenario_payload = (42, [''opus''])"

definition scenario_heap :: "(nat \<times> string list) heap" where
  "scenario_heap =
     [Some (Event (fst (RtcEventAudioSendStreamConfig_ctor 1000 (Some 1)))),
      Some (StreamConfig scenario_payload), None, None, None, None]"

definition two_free_heap :: "(nat \<times> string list) heap" where
  "two_free_heap =
     [Some (Event (fst (RtcEventAudioSendStreamConfig_ctor 1000 (Some 1)))),
      Some (StreamConfig scenario_payload), None, None]"

definition null_heap :: "(nat \<times> string list) heap" where
  "null_heap =
     [Some (Event (fst (RtcEventAudioSendStreamConfig_ctor 1000 None))), None, None, None]"


section \<open>Allocation\<close>

lemma find_free_Some: "find_free h = Some a \<Longrightarrow> a < length h \<and> h ! a = None"
proof (induction h arbitrary: a)
  case Nil
  then show ?case by simp
next
  case (Cons c cs)
  then show ?case by (cases c) auto
qed

lemma find_free_None: "(find_free h = None) = (free_cells h = 0)"
  by (induction h) (auto simp: free_cells_def split: option.splits)

lemma free_cells_fill:
  "a < length h \<Longrightarrow> h ! a = None \<Longrightarrow> Suc (free_cells (h[a := Some x])) = free_cells h"
proof (induction h arbitrary: a)
  case Nil
  then show ?case by simp
next
  case (Cons c cs)
  then show ?case by (cases a) (auto simp: free_cells_def)
qed

lemma free_cells_pos: "a < length h \<Longrightarrow> h ! a = None \<Longrightarrow> 0 < free_cells h"
proof (induction h arbitrary: a)
  case Nil
  then show ?case by simp
next
  case (Cons c cs)
  then show ?case by (cases a) (auto simp: free_cells_def)
qed

lemma free_cells_overwrite:
  "a < length h \<Longrightarrow> h ! a = Some y \<Longrightarrow> free_cells (h[a := Some x]) = free_cells h"
proof (induction h arbitrary: a)
  case Nil
  then show ?case by simp
next
  case (Cons c cs)
  then show ?case by (cases a) (auto simp: free_cells_def)
qed

lemma operator_new_Inr:
  "operator_new h = Inr (a, h1) \<Longrightarrow>
     a < length h \<and> h ! a = None \<and> h1 = h[a := Some RawStorage]"
  by (auto simp: operator_new_def split: option.splits dest: find_free_Some)

lemma operator_new_Inl: "operator_new h = Inl f \<Longrightarrow> f = OutOfMemory \<and> free_cells h = 0"
  by (auto simp: operator_new_def find_free_None [symmetric] split: option.splits)

lemma operator_new_total:
  "0 < free_cells h \<Longrightarrow> \<exists>a. operator_new h = Inr (a, h[a := Some RawStorage])"
  using find_free_None [of h] by (auto simp: operator_new_def split: option.splits)

lemma MakeUnique_Inr:
  "MakeUnique h x = Inr (a, h1) \<Longrightarrow>
     a < length h \<and> h ! a = None \<and> h1 = h[a := Some (StreamConfig x)]"
  by (auto simp: MakeUnique_def StreamConfig_copy_def split: sum.splits
           dest!: operator_new_Inr)

lemma MakeUnique_Inl: "MakeUnique h x = Inl f \<Longrightarrow> f = OutOfMemory \<and> free_cells h = 0"
  by (auto simp: MakeUnique_def split: sum.splits dest: operator_new_Inl)

lemma MakeUnique_total:
  "0 < free_cells h \<Longrightarrow> \<exists>a. MakeUnique h x = Inr (a, h[a := Some (StreamConfig x)])"
  using operator_new_total [of h]
  by (auto simp: MakeUnique_def StreamConfig_copy_def)


section \<open>What the operations do to the memory\<close>

lemma load_event_Inr:
  "(load_event h p = Inr e) = (p < length h \<and> h ! p = Some (Event e))"
  by (auto simp: load_event_def split: option.splits object.splits)

lemma deref_config_Inr:
  "(deref_config h p = Inr c) = (\<exists>a. p = Some a \<and> a < length h \<and> h ! a = Some (StreamConfig c))"
  by (auto simp: deref_config_def split: option.splits object.splits)

lemma live_event_iff:
  "live_event h p a c =
     (\<exists>e. p < length h \<and> h ! p = Some (Event e) \<and> config e = Some a \<and>
          a < length h \<and> h ! a = Some (StreamConfig c))"
  by (auto simp: live_event_def load_event_def deref_config_def
           split: option.splits object.splits if_splits)

lemma load_event_update: "i \<noteq> p \<Longrightarrow> load_event (h[i := x]) p = load_event h p"
  by (simp add: load_event_def)

lemma deref_config_update: "p \<noteq> Some i \<Longrightarrow> deref_config (h[i := x]) p = deref_config h p"
  by (cases p) (auto simp: deref_config_def)

lemma copy_ctor_Inr:
  assumes "RtcEventAudioSendStreamConfig_copy_ctor h other = Inr (d, h1)"
  shows "\<exists>e a c q. h ! other = Some (Event e) \<and> other < length h \<and> config e = Some a \<and>
            a < length h \<and> h ! a = Some (StreamConfig c) \<and>
            q < length h \<and> h ! q = None \<and>
            d = \<lparr>timestamp_us = timestamp_us e, config = Some q\<rparr> \<and>
            h1 = h[q := Some (StreamConfig c)]"
  using assms
  by (auto simp: RtcEventAudioSendStreamConfig_copy_ctor_def load_event_Inr deref_config_Inr
           split: sum.splits dest!: MakeUnique_Inr)

lemma copy_ctor_Inl:
  assumes "live_event h other a c" "RtcEventAudioSendStreamConfig_copy_ctor h other = Inl f"
  shows "f = OutOfMemory \<and> free_cells h = 0"
  using assms
  by (auto simp: RtcEventAudioSendStreamConfig_copy_ctor_def live_event_def
           split: sum.splits dest: MakeUnique_Inl)

lemma new_copy_Inr:
  assumes "new_copy h other = Inr (p, h')"
  shows "\<exists>e a c q. other < length h \<and> h ! other = Some (Event e) \<and> config e = Some a \<and>
            a < length h \<and> h ! a = Some (StreamConfig c) \<and>
            p < length h \<and> h ! p = None \<and> q < length h \<and> h ! q = None \<and> p \<noteq> q \<and>
            h' = h[q := Some (StreamConfig c),
                   p := Some (Event \<lparr>timestamp_us = timestamp_us e, config = Some q\<rparr>)]"
proof -
  from assms obtain h1 d h2 where
    n: "operator_new h = Inr (p, h1)" and
    c: "RtcEventAudioSendStreamConfig_copy_ctor h1 other = Inr (d, h2)" and
    h': "h' = h2[p := Some (Event d)]"
    by (auto simp: new_copy_def split: sum.splits)
  from operator_new_Inr [OF n] have p: "p < length h" "h ! p = None" "h1 = h[p := Some RawStorage]"
    by auto
  from copy_ctor_Inr [OF c] obtain e a c q where
    q: "h1 ! other = Some (Event e)" "other < length h1" "config e = Some a"
       "a < length h1" "h1 ! a = Some (StreamConfig c)" "q < length h1" "h1 ! q = None"
       "d = \<lparr>timestamp_us = timestamp_us e, config = Some q\<rparr>"
       "h2 = h1[q := Some (StreamConfig c)]"
    by blast
  from p q have ne: "other \<noteq> p" "a \<noteq> p" "q \<noteq> p"
    by auto
  with p q have "h ! other = Some (Event e)" "h ! a = Some (StreamConfig c)" "h ! q = None"
    by auto
  moreover have "h' = h[q := Some (StreamConfig c),
                   p := Some (Event \<lparr>timestamp_us = timestamp_us e, config = Some q\<rparr>)]"
    using h' p q ne by (simp add: list_update_swap [of p q])
  ultimately show ?thesis using p q ne by auto
qed

lemma live_event_fill:
  "live_event h p a c \<Longrightarrow> i < length h \<Longrightarrow> h ! i = None \<Longrightarrow> live_event (h[i := x]) p a c"
  by (auto simp: live_event_iff nth_list_update)

lemma Copy_Inr:
  assumes "Copy h this = Inr (p, h')"
  shows "\<exists>e a c cc q. this < length h \<and> h ! this = Some (Event e) \<and> config e = Some a \<and>
            a < length h \<and> h ! a = Some (StreamConfig c) \<and>
            cc < length h \<and> h ! cc = None \<and>
            p < length h \<and> h ! p = None \<and> q < length h \<and> h ! q = None \<and>
            p \<noteq> q \<and> cc \<noteq> p \<and> cc \<noteq> q \<and>
            MakeUnique h c = Inr (cc, h[cc := Some (StreamConfig c)]) \<and>
            h' = h[q := Some (StreamConfig c),
                   p := Some (Event \<lparr>timestamp_us = timestamp_us e, config = Some q\<rparr>)]"
proof -
  from assms obtain e c cc h1 h2 where
    e: "load_event h this = Inr e" and
    c: "deref_config h (config e) = Inr c" and
    m: "MakeUnique h c = Inr (cc, h1)" and
    n: "new_copy h1 this = Inr (p, h2)" and
    h': "h' = unique_ptr_dtor h2 (Some cc)"
    by (auto simp: Copy_def split: sum.splits)
  from e have t: "this < length h" "h ! this = Some (Event e)"
    by (auto simp: load_event_Inr)
  from c obtain a where a: "config e = Some a" "a < length h" "h ! a = Some (StreamConfig c)"
    by (auto simp: deref_config_Inr)
  from MakeUnique_Inr [OF m] have cc: "cc < length h" "h ! cc = None"
    "h1 = h[cc := Some (StreamConfig c)]"
    by auto
  from new_copy_Inr [OF n] obtain e1 a1 c1 q where
    q: "h1 ! this = Some (Event e1)" "config e1 = Some a1" "h1 ! a1 = Some (StreamConfig c1)"
       "p < length h1" "h1 ! p = None" "q < length h1" "h1 ! q = None" "p \<noteq> q"
       "h2 = h1[q := Some (StreamConfig c1),
                p := Some (Event \<lparr>timestamp_us = timestamp_us e1, config = Some q\<rparr>)]"
    by blast
  from t a cc have ne: "this \<noteq> cc" "a \<noteq> cc"
    by auto
  from q cc have ne2: "p \<noteq> cc" "q \<noteq> cc"
    by auto
  from ne t q cc have e1: "e1 = e"
    by simp
  with a q have a1: "a1 = a"
    by simp
  with ne a q cc have c1: "c1 = c"
    by simp
  have free: "h ! p = None" "h ! q = None" "p < length h" "q < length h"
    using q cc ne2 by auto
  have "h' = h[q := Some (StreamConfig c),
               p := Some (Event \<lparr>timestamp_us = timestamp_us e, config = Some q\<rparr>)]"
    unfolding h' q cc e1 c1 unique_ptr_dtor_def operator_delete_def
    using cc ne2 free by (intro nth_equalityI) (auto simp: nth_list_update)
  with t a cc free q ne2 m show ?thesis
    by blast
qed

lemma new_copy_total:
  assumes "live_event h other a c" "2 \<le> free_cells h"
  shows "\<exists>p h'. new_copy h other = Inr (p, h')"
proof -
  from assms(2) have "0 < free_cells h"
    by simp
  from operator_new_total [OF this]
  obtain p where p: "operator_new h = Inr (p, h[p := Some RawStorage])" ..
  let ?h1 = "h[p := Some RawStorage]"
  from operator_new_Inr [OF p] have pf: "p < length h" "h ! p = None"
    by auto
  then have l: "live_event ?h1 other a c"
    using assms(1) by (simp add: live_event_fill)
  have "Suc (free_cells ?h1) = free_cells h"
    using pf by (rule free_cells_fill)
  with assms(2) have pos: "0 < free_cells ?h1"
    by linarith
  from MakeUnique_total [OF pos, of c]
  obtain q where q: "MakeUnique ?h1 c = Inr (q, ?h1[q := Some (StreamConfig c)])" ..
  from l obtain e where e: "load_event ?h1 other = Inr e" "config e = Some a"
    "deref_config ?h1 (Some a) = Inr c"
    by (cases "load_event ?h1 other") (auto simp: live_event_def)
  with q have "RtcEventAudioSendStreamConfig_copy_ctor ?h1 other =
      Inr (\<lparr>timestamp_us = timestamp_us e, config = Some q\<rparr>, ?h1[q := Some (StreamConfig c)])"
    by (simp add: RtcEventAudioSendStreamConfig_copy_ctor_def)
  with p show ?thesis
    by (simp add: new_copy_def)
qed

lemma new_copy_Inl:
  assumes "live_event h other a c" "new_copy h other = Inl f"
  shows "f = OutOfMemory \<and> free_cells h < 2"
proof (cases "operator_new h")
  case (Inl g)
  with assms operator_new_Inl [OF Inl] show ?thesis
    by (simp add: new_copy_def)
next
  case (Inr r)
  then obtain p h1 where p: "operator_new h = Inr (p, h1)"
    by (cases r) simp
  from operator_new_Inr [OF p] have pf: "p < length h" "h ! p = None"
    "h1 = h[p := Some RawStorage]"
    by auto
  then have l: "live_event h1 other a c"
    using assms by (simp add: live_event_fill)
  from assms p have "RtcEventAudioSendStreamConfig_copy_ctor h1 other = Inl f"
    by (auto simp: new_copy_def split: sum.splits)
  from copy_ctor_Inl [OF l this] pf show ?thesis
    using free_cells_fill [of p h RawStorage] by simp
qed

lemma Copy_total:
  assumes "live_event h this a c" "3 \<le> free_cells h"
  shows "\<exists>p h'. Copy h this = Inr (p, h')"
proof -
  from assms(2) have pos: "0 < free_cells h"
    by simp
  from MakeUnique_total [OF pos, of c]
  obtain cc where cc: "MakeUnique h c = Inr (cc, h[cc := Some (StreamConfig c)])" ..
  let ?h1 = "h[cc := Some (StreamConfig c)]"
  from MakeUnique_Inr [OF cc] have cf: "cc < length h" "h ! cc = None"
    by auto
  then have l: "live_event ?h1 this a c"
    using assms(1) by (simp add: live_event_fill)
  have "Suc (free_cells ?h1) = free_cells h"
    using cf by (rule free_cells_fill)
  with assms(2) have "2 \<le> free_cells ?h1"
    by linarith
  from new_copy_total [OF l this] obtain p h2 where n: "new_copy ?h1 this = Inr (p, h2)"
    by auto
  from assms(1) obtain e where e: "load_event h this = Inr e" "config e = Some a"
    "deref_config h (Some a) = Inr c"
    by (cases "load_event h this") (auto simp: live_event_def)
  with cc n show ?thesis
    by (simp add: Copy_def)
qed

lemma Copy_Inl:
  assumes "live_event h this a c" "Copy h this = Inl f"
  shows "f = OutOfMemory \<and> free_cells h < 3"
proof (cases "MakeUnique h c")
  case (Inl g)
  with assms MakeUnique_Inl [OF Inl] show ?thesis
    by (auto simp: Copy_def live_event_def split: sum.splits)
next
  case (Inr r)
  then obtain cc h1 where cc: "MakeUnique h c = Inr (cc, h1)"
    by (cases r) simp
  from MakeUnique_Inr [OF cc] have cf: "cc < length h" "h ! cc = None"
    "h1 = h[cc := Some (StreamConfig c)]"
    by auto
  then have l: "live_event h1 this a c"
    using assms by (simp add: live_event_fill)
  from assms cc have "new_copy h1 this = Inl f"
    by (auto simp: Copy_def live_event_def split: sum.splits)
  from new_copy_Inl [OF l this] cf show ?thesis
    using free_cells_fill [of cc h "StreamConfig c"] by simp
qed


section \<open>Immutability of the live cells\<close>

lemmas scenario_defs =
  scenario_heap_def scenario_payload_def null_heap_def two_free_heap_def Copy_def load_event_def deref_config_def
  MakeUnique_def operator_new_def new_copy_def RtcEventAudioSendStreamConfig_copy_ctor_def
  RtcEventAudioSendStreamConfig_ctor_def unique_ptr_move_def unique_ptr_dtor_def
  operator_delete_def StreamConfig_copy_def GetType_def IsConfigEvent_def observe_def
  live_event_def free_cells_def RtcEventAudioSendStreamConfig_dtor_def delete_event_def
  live_cells_kept_def

lemma live_cells_kept_iff:
  "live_cells_kept h h' =
     (length h' = length h \<and> (\<forall>i<length h. h ! i \<noteq> None \<longrightarrow> h' ! i = h ! i))"
  by (auto simp: live_cells_kept_def list_all2_conv_all_nth Option.is_none_def)

lemma live_cells_kept_refl: "live_cells_kept h h"
  by (simp add: live_cells_kept_iff)

lemma live_cells_kept_trans:
  "live_cells_kept h h1 \<Longrightarrow> live_cells_kept h1 h2 \<Longrightarrow> live_cells_kept h h2"
  by (auto simp: live_cells_kept_iff)

lemma Copy_keeps: "Copy h this = Inr (p, h') \<Longrightarrow> live_cells_kept h h'"
  by (drule Copy_Inr) (auto simp: live_cells_kept_iff nth_list_update)

lemma invoke_keeps: "invoke h this c = Inr (r, h') \<Longrightarrow> live_cells_kept h h'"
  by (cases c)
     (auto simp: GetType_def IsConfigEvent_def live_cells_kept_refl split: sum.splits
           dest: Copy_keeps)

lemma invoke_all_keeps: "invoke_all h this cs = Inr (rs, h') \<Longrightarrow> live_cells_kept h h'"
proof (induction cs arbitrary: h rs)
  case Nil
  then show ?case by (simp add: live_cells_kept_refl)
next
  case (Cons c cs)
  from Cons.prems obtain r h1 rs1 where
    s: "invoke h this c = Inr (r, h1)" "invoke_all h1 this cs = Inr (rs1, h')"
    by (auto split: sum.splits)
  from invoke_keeps [OF s(1)] Cons.IH [OF s(2)] show ?case
    by (rule live_cells_kept_trans)
qed

lemma live_event_kept:
  "live_cells_kept h h' \<Longrightarrow> live_event h p a c \<Longrightarrow> live_event h' p a c"
  by (auto simp: live_cells_kept_iff live_event_iff)

lemma observe_live:
  "live_event h p a c \<Longrightarrow>
     \<exists>e. load_event h p = Inr e \<and> config e = Some a \<and>
         observe h p = Inr (AudioSendStreamConfig, True, timestamp_us e, Inr c)"
  by (cases "load_event h p") (auto simp: live_event_def observe_def GetType_def IsConfigEvent_def)

lemma load_event_kept:
  "live_cells_kept h h' \<Longrightarrow> load_event h p = Inr e \<Longrightarrow> load_event h' p = Inr e"
  by (auto simp: live_cells_kept_iff load_event_Inr)

lemma observe_kept:
  "live_cells_kept h h' \<Longrightarrow> live_event h p a c \<Longrightarrow> observe h' p = observe h p"
  using observe_live [of h p a c] observe_live [of h' p a c] live_event_kept [of h h' p a c]
    load_event_kept [of h h' p]
  by auto

lemma invoke_observe: "invoke h this c = Inr (r, h') \<Longrightarrow> observe h' this = observe h this"
proof (cases c)
  case CallCopy
  assume i: "invoke h this c = Inr (r, h')"
  with CallCopy obtain p where p: "Copy h this = Inr (p, h')"
    by (auto split: sum.splits)
  from Copy_Inr [OF p] obtain a x where "live_event h this a x"
    by (auto simp: live_event_iff)
  with Copy_keeps [OF p] show ?thesis
    by (rule observe_kept)
qed (auto simp: GetType_def IsConfigEvent_def)

lemma invoke_all_observe:
  "invoke_all h this cs = Inr (rs, h') \<Longrightarrow> observe h' this = observe h this"
proof (induction cs arbitrary: h rs)
  case Nil
  then show ?case by simp
next
  case (Cons c cs)
  from Cons.prems obtain r h1 rs1 where
    s: "invoke h this c = Inr (r, h1)" "invoke_all h1 this cs = Inr (rs1, h')"
    by (auto split: sum.splits)
  from invoke_observe [OF s(1)] Cons.IH [OF s(2)] show ?case
    by simp
qed

lemma invoke_all_expected:
  "invoke_all h this cs = Inr (rs, h') \<Longrightarrow> list_all2 expected cs rs"
proof (induction cs arbitrary: h rs)
  case Nil
  then show ?case by simp
next
  case (Cons c cs)
  then show ?case
    by (cases c) (auto simp: GetType_def IsConfigEvent_def split: sum.splits)
qed

lemma accessors_only:
  "CallCopy \<notin> set cs \<Longrightarrow>
     invoke_all h this cs =
       Inr (map (\<lambda>c. if c = CallGetType then TypeAnswer (fst (GetType h this))
                       else BoolAnswer (fst (IsConfigEvent h this))) cs, h)"
proof (induction cs)
  case Nil
  then show ?case by simp
next
  case (Cons c cs)
  then show ?case
    by (cases c) (auto simp: GetType_def IsConfigEvent_def)
qed

lemma invoke_load_event:
  "invoke h this c = Inr (r, h') \<Longrightarrow> load_event h' this = load_event h this"
proof (cases c)
  case CallCopy
  assume i: "invoke h this c = Inr (r, h')"
  with CallCopy obtain p where p: "Copy h this = Inr (p, h')"
    by (auto split: sum.splits)
  from Copy_Inr [OF p] obtain e where e: "load_event h this = Inr e"
    by (auto simp: load_event_Inr)
  from load_event_kept [OF Copy_keeps [OF p] e] e show ?thesis
    by simp
qed (auto simp: GetType_def IsConfigEvent_def)

lemma invoke_total:
  assumes "live_event h this a x" "3 \<le> free_cells h"
  shows "\<exists>r h'. invoke h this c = Inr (r, h')"
proof (cases c)
  case CallCopy
  from Copy_total [OF assms] obtain p h' where "Copy h this = Inr (p, h')"
    by blast
  with CallCopy show ?thesis
    by simp
qed (simp_all add: GetType_def IsConfigEvent_def)


section \<open>The accessors and immutability\<close>

text \<open>
  Claim C3. On every constructed event, \<^verbatim>\<open>GetType()\<close> returns the fixed tag
  \<^verbatim>\<open>RtcEvent::Type::AudioSendStreamConfig\<close> and \<^verbatim>\<open>IsConfigEvent()\<close> returns true, on every
  call and whatever the order and number of the calls: in every run of public operations
  that returns, every answer is the expected one. The memory \<open>h\<close>, and with it the contents
  of the payload, is arbitrary: neither answer is computed from it.
\<close>

theorem accessors_fixed:
  "fst (GetType h this) = AudioSendStreamConfig \<and>
   fst (IsConfigEvent h this) = True \<and>
   (\<forall>cs rs h'. invoke_all h this cs = Inr (rs, h') \<longrightarrow> list_all2 expected cs rs)"
  by (auto simp: GetType_def IsConfigEvent_def dest: invoke_all_expected)

theorem accessors_fixed_witness:
  "\<exists>rs h'. invoke_all scenario_heap 0 [CallGetType, CallCopy, CallIsConfigEvent, CallGetType]
             = Inr (rs, h') \<and>
           list_all2 expected [CallGetType, CallCopy, CallIsConfigEvent, CallGetType] rs \<and>
           fst (GetType h' 0) = AudioSendStreamConfig \<and> fst (IsConfigEvent h' 0) = True"
proof -
  obtain rs h' where run:
    "invoke_all scenario_heap 0 [CallGetType, CallCopy, CallIsConfigEvent, CallGetType]
       = Inr (rs, h')"
    by (simp add: scenario_defs)
  from accessors_fixed [of scenario_heap 0] run
  have "list_all2 expected [CallGetType, CallCopy, CallIsConfigEvent, CallGetType] rs"
    by blast
  with run accessors_fixed [of h' 0] show ?thesis
    by blast
qed

text \<open>
  Claim C5. \<^verbatim>\<open>GetType()\<close> and \<^verbatim>\<open>IsConfigEvent()\<close> are pure and idempotent: a call leaves the
  memory as it was, a second call answers what the first did, and any number of calls of
  the two, in any order, give each time the answer of the first call and leave the memory
  unchanged.
\<close>

theorem accessors_idempotent:
  "GetType (snd (GetType h this)) this = GetType h this \<and>
   IsConfigEvent (snd (IsConfigEvent h this)) this = IsConfigEvent h this \<and>
   snd (GetType h this) = h \<and>
   snd (IsConfigEvent h this) = h \<and>
   (CallCopy \<notin> set cs \<longrightarrow>
      invoke_all h this cs =
        Inr (map (\<lambda>c. if c = CallGetType then TypeAnswer (fst (GetType h this))
                        else BoolAnswer (fst (IsConfigEvent h this))) cs, h))"
  using accessors_only [of cs h this] by (simp add: GetType_def IsConfigEvent_def)

theorem accessors_idempotent_witness:
  "CallCopy \<notin> set [CallGetType, CallGetType, CallIsConfigEvent, CallIsConfigEvent, CallGetType] \<and>
   invoke_all scenario_heap 0
     [CallGetType, CallGetType, CallIsConfigEvent, CallIsConfigEvent, CallGetType] =
     Inr ([TypeAnswer AudioSendStreamConfig, TypeAnswer AudioSendStreamConfig,
           BoolAnswer True, BoolAnswer True, TypeAnswer AudioSendStreamConfig], scenario_heap)"
proof -
  have n: "CallCopy \<notin> set [CallGetType, CallGetType, CallIsConfigEvent, CallIsConfigEvent, CallGetType]"
    by simp
  from accessors_idempotent [of scenario_heap 0
      "[CallGetType, CallGetType, CallIsConfigEvent, CallIsConfigEvent, CallGetType]"] n
  have "invoke_all scenario_heap 0
     [CallGetType, CallGetType, CallIsConfigEvent, CallIsConfigEvent, CallGetType] =
     Inr (map (\<lambda>c. if c = CallGetType then TypeAnswer (fst (GetType scenario_heap 0))
                        else BoolAnswer (fst (IsConfigEvent scenario_heap 0)))
          [CallGetType, CallGetType, CallIsConfigEvent, CallIsConfigEvent, CallGetType],
          scenario_heap)"
    by blast
  then show ?thesis
    using n by (simp add: GetType_def IsConfigEvent_def)
qed

text \<open>
  Claim C6. An event is immutable after construction: whenever a public operation
  (\<^verbatim>\<open>GetType\<close>, \<^verbatim>\<open>IsConfigEvent\<close>, \<^verbatim>\<open>Copy\<close>) on the event at \<open>this\<close> returns, the type tag,
  the configuration flag, the timestamp and the payload contents of that event are what
  they were before, its fields are unchanged, and so is every other live cell; the same
  holds for any sequence of public operations. The operations do return on a live event
  when three cells are free.
\<close>

theorem event_immutable:
  "(\<forall>r h'. invoke h this c = Inr (r, h') \<longrightarrow>
      observe h' this = observe h this \<and> load_event h' this = load_event h this \<and>
      live_cells_kept h h') \<and>
   (\<forall>rs h'. invoke_all h this cs = Inr (rs, h') \<longrightarrow>
      observe h' this = observe h this \<and> live_cells_kept h h') \<and>
   (\<forall>a x. live_event h this a x \<longrightarrow> 3 \<le> free_cells h \<longrightarrow>
      (\<exists>r h'. invoke h this c = Inr (r, h')))"
  using invoke_observe [of h this c] invoke_load_event [of h this c] invoke_keeps [of h this c]
    invoke_all_observe [of h this cs] invoke_all_keeps [of h this cs] invoke_total [of h this _ _ c]
  by blast

theorem event_immutable_witness:
  "live_event scenario_heap 0 1 scenario_payload \<and> 3 \<le> free_cells scenario_heap \<and>
   (\<exists>r h'. invoke scenario_heap 0 CallCopy = Inr (r, h') \<and>
      h' \<noteq> scenario_heap \<and>
      observe h' 0 = Inr (AudioSendStreamConfig, True, 1000, Inr scenario_payload) \<and>
      observe scenario_heap 0 = Inr (AudioSendStreamConfig, True, 1000, Inr scenario_payload))"
proof -
  have l: "live_event scenario_heap 0 1 scenario_payload" and f: "3 \<le> free_cells scenario_heap"
    by (simp_all add: scenario_defs)
  have o: "observe scenario_heap 0 = Inr (AudioSendStreamConfig, True, 1000, Inr scenario_payload)"
    by (simp add: scenario_defs)
  from event_immutable [of scenario_heap 0 CallCopy "[]"] l f
  obtain r h' where i: "invoke scenario_heap 0 CallCopy = Inr (r, h')"
    by blast
  with event_immutable [of scenario_heap 0 CallCopy "[]"]
  have "observe h' 0 = observe scenario_heap 0"
    by blast
  moreover from i have "h' \<noteq> scenario_heap"
    by (auto simp: scenario_defs)
  ultimately show ?thesis
    using l f o i by auto
qed


section \<open>Duplication\<close>

lemma free_cells_three:
  assumes "a < length h" "h ! a = None" "b < length h" "h ! b = None" "c < length h" "h ! c = None"
    "a \<noteq> b" "a \<noteq> c" "b \<noteq> c"
  shows "3 \<le> free_cells h"
proof -
  let ?h1 = "h[a := Some RawStorage]"
  let ?h2 = "?h1[b := Some RawStorage]"
  have 1: "Suc (free_cells ?h1) = free_cells h"
    using assms by (intro free_cells_fill) auto
  have 2: "Suc (free_cells ?h2) = free_cells ?h1"
    using assms by (intro free_cells_fill) auto
  have 3: "0 < free_cells ?h2"
    using assms by (intro free_cells_pos [of c]) auto
  from 1 2 3 show ?thesis
    by linarith
qed


lemma Copy_needs_three: "Copy h this = Inr (d, h') \<Longrightarrow> 3 \<le> free_cells h"
  by (drule Copy_Inr) (auto intro: free_cells_three)

lemma Copy_result:
  assumes l: "live_event h this a c" and e: "load_event h this = Inr e"
    and c: "Copy h this = Inr (d, h')"
  shows "\<exists>q. d < length h \<and> h ! d = None \<and> q < length h \<and> h ! q = None \<and> q \<noteq> d \<and>
           load_event h' d = Inr \<lparr>timestamp_us = timestamp_us e, config = Some q\<rparr> \<and>
           live_event h' d q c \<and> live_event h' this a c \<and>
           observe h' d = observe h this"
proof -
  from Copy_Inr [OF c] obtain e1 a1 c1 q where
    s: "h ! this = Some (Event e1)" "config e1 = Some a1" "h ! a1 = Some (StreamConfig c1)"
       "d < length h" "h ! d = None" "q < length h" "h ! q = None" "d \<noteq> q"
       "h' = h[q := Some (StreamConfig c1),
               d := Some (Event \<lparr>timestamp_us = timestamp_us e1, config = Some q\<rparr>)]"
    by blast
  from e s have e1: "e1 = e"
    by (simp add: load_event_Inr)
  from l s e1 have a1: "a1 = a" and c1: "c1 = c"
    by (auto simp: live_event_iff)
  have ld: "load_event h' d = Inr \<lparr>timestamp_us = timestamp_us e, config = Some q\<rparr>"
    using s e1 by (simp add: load_event_Inr)
  have lq: "live_event h' d q c"
    using s c1 by (simp add: live_event_iff)
  have lt: "live_event h' this a c"
    using live_event_kept [OF Copy_keeps [OF c] l] .
  from observe_live [OF lq] ld observe_live [OF l] e have "observe h' d = observe h this"
    by simp
  with s ld lq lt show ?thesis
    by blast
qed



lemma delete_event_live:
  "live_event h x ax cx \<Longrightarrow> delete_event h x = Inr (h[ax := None, x := None])"
  by (cases "load_event h x")
     (auto simp: live_event_def delete_event_def RtcEventAudioSendStreamConfig_dtor_def
                 unique_ptr_dtor_def operator_delete_def)

lemma delete_event_gone:
  "live_event h x ax cx \<Longrightarrow> observe (h[ax := None, x := None]) x = Inl InvalidPointer"
  by (auto simp: live_event_iff observe_def load_event_def)

lemma delete_event_other:
  assumes "live_event h x ax cx" "live_event h y ay cy" "y \<noteq> x" "ay \<noteq> ax"
  shows "live_event (h[ax := None, x := None]) y ay cy \<and>
         observe (h[ax := None, x := None]) y = observe h y"
proof -
  from assms have k: "y \<noteq> ax" "ay \<noteq> x"
    by (auto simp: live_event_iff)
  with assms have l: "live_event (h[ax := None, x := None]) y ay cy"
    by (auto simp: live_event_iff)
  from k assms have "load_event (h[ax := None, x := None]) y = load_event h y"
    by (simp add: load_event_update)
  with observe_live [OF l] observe_live [OF assms(2)] l show ?thesis
    by auto
qed

text \<open>
  Claim C2. For every event \<open>e\<close> with a non-null payload, the duplicate \<open>d = e.Copy()\<close>
  owns a fresh payload of its own, never an alias of the payload of \<open>e\<close>: the cells of
  \<open>d\<close> and of its payload were free before the call and differ from those of \<open>e\<close>;
  \<^verbatim>\<open>Copy\<close> leaves the observable state of \<open>e\<close> unchanged; destroying \<open>e\<close> leaves \<open>d\<close>
  live with its observable state unchanged, and conversely; and no public operation on
  one of the two changes the observable state of the other.
\<close>

theorem Copy_independent:
  assumes "live_event h this a c" and "Copy h this = Inr (d, h')"
  shows "\<exists>q. live_event h' d q c \<and> live_event h' this a c \<and>
           d \<noteq> this \<and> q \<noteq> a \<and> h ! d = None \<and> h ! q = None \<and>
           observe h' this = observe h this \<and>
           (\<exists>h1. delete_event h' this = Inr h1 \<and> observe h1 d = observe h' d \<and>
                 live_event h1 d q c \<and> observe h1 this = Inl InvalidPointer) \<and>
           (\<exists>h2. delete_event h' d = Inr h2 \<and> observe h2 this = observe h' this \<and>
                 live_event h2 this a c \<and> observe h2 d = Inl InvalidPointer) \<and>
           (\<forall>op r h3. invoke h' this op = Inr (r, h3) \<longrightarrow>
                 observe h3 d = observe h' d \<and> live_event h3 d q c) \<and>
           (\<forall>op r h3. invoke h' d op = Inr (r, h3) \<longrightarrow>
                 observe h3 this = observe h' this \<and> live_event h3 this a c)"
proof -
  from assms(1) obtain e where e: "load_event h this = Inr e"
    by (auto simp: live_event_iff load_event_Inr)
  from Copy_result [OF assms(1) e assms(2)] obtain q where
    q: "d < length h" "h ! d = None" "q < length h" "h ! q = None"
       "live_event h' d q c" "live_event h' this a c"
    by blast
  from assms(1) q have ne: "d \<noteq> this" "q \<noteq> a" "this \<noteq> d" "a \<noteq> q"
    by (auto simp: live_event_iff)
  have o: "observe h' this = observe h this"
    using Copy_keeps [OF assms(2)] assms(1) by (rule observe_kept)
  have d1: "\<exists>h1. delete_event h' this = Inr h1 \<and> observe h1 d = observe h' d \<and>
                 live_event h1 d q c \<and> observe h1 this = Inl InvalidPointer"
    using delete_event_live [OF q(6)] delete_event_other [OF q(6) q(5) ne(1) ne(2)]
      delete_event_gone [OF q(6)]
    by simp
  have d2: "\<exists>h2. delete_event h' d = Inr h2 \<and> observe h2 this = observe h' this \<and>
                 live_event h2 this a c \<and> observe h2 d = Inl InvalidPointer"
    using delete_event_live [OF q(5)] delete_event_other [OF q(5) q(6) ne(3) ne(4)]
      delete_event_gone [OF q(5)]
    by simp
  have i1: "\<forall>op r h3. invoke h' this op = Inr (r, h3) \<longrightarrow>
                 observe h3 d = observe h' d \<and> live_event h3 d q c"
    using observe_kept [OF invoke_keeps q(5)] live_event_kept [OF invoke_keeps q(5)]
    by blast
  have i2: "\<forall>op r h3. invoke h' d op = Inr (r, h3) \<longrightarrow>
                 observe h3 this = observe h' this \<and> live_event h3 this a c"
    using observe_kept [OF invoke_keeps q(6)] live_event_kept [OF invoke_keeps q(6)]
    by blast
  from q ne o d1 d2 i1 i2 show ?thesis
    by blast
qed

theorem Copy_independent_witness:
  "live_event scenario_heap 0 1 scenario_payload \<and>
   (\<exists>d h' q. Copy scenario_heap 0 = Inr (d, h') \<and> d \<noteq> 0 \<and> q \<noteq> 1 \<and>
      live_event h' d q scenario_payload \<and>
      (\<exists>h1. delete_event h' 0 = Inr h1 \<and> observe h1 d = observe h' d \<and>
         live_event h1 d q scenario_payload) \<and>
      (\<exists>h2. delete_event h' d = Inr h2 \<and> observe h2 0 = observe h' 0 \<and>
         live_event h2 0 1 scenario_payload))"
proof -
  have l: "live_event scenario_heap 0 1 scenario_payload"
    by (simp add: scenario_defs)
  obtain d h' where c: "Copy scenario_heap 0 = Inr (d, h')"
    by (simp add: scenario_defs)
  from Copy_independent [OF l c] l c show ?thesis
    by blast
qed

lemma Copy_steps:
  assumes l: "live_event h this a c" and e: "load_event h this = Inr e"
    and c: "Copy h this = Inr (d, h')"
  shows "\<exists>config_copy h1 h2 h3 q.
           MakeUnique h c = Inr (config_copy, h1) \<and>
           operator_new h1 = Inr (d, h2) \<and>
           RtcEventAudioSendStreamConfig_copy_ctor h2 this =
             Inr (\<lparr>timestamp_us = timestamp_us e, config = Some q\<rparr>, h3) \<and>
           MakeUnique h2 c = Inr (q, h3) \<and>
           h' ! d = Some (Event \<lparr>timestamp_us = timestamp_us e, config = Some q\<rparr>) \<and>
           h' ! q = Some (StreamConfig c) \<and> h' ! a = Some (StreamConfig c) \<and>
           h' ! config_copy = None \<and>
           q < length h \<and> h ! q = None \<and> h2 ! q = None \<and> h3 ! q = Some (StreamConfig c) \<and>
           q \<noteq> a \<and> q \<noteq> d \<and> q \<noteq> config_copy \<and> d \<noteq> config_copy"
proof -
  from l e have x: "config e = Some a" "deref_config h (config e) = Inr c"
    by (auto simp: live_event_def)
  from l e have live: "this < length h" "h ! this = Some (Event e)" "a < length h"
    "h ! a = Some (StreamConfig c)"
    by (auto simp: live_event_iff load_event_Inr)
  from c e x obtain cc h1 h1' where
    m: "MakeUnique h c = Inr (cc, h1)" and n: "new_copy h1 this = Inr (d, h1')" and
    h': "h' = unique_ptr_dtor h1' (Some cc)"
    by (auto simp: Copy_def split: sum.splits)
  from n obtain h2 ed h3 where
    o: "operator_new h1 = Inr (d, h2)" and
    k: "RtcEventAudioSendStreamConfig_copy_ctor h2 this = Inr (ed, h3)" and
    h1': "h1' = h3[d := Some (Event ed)]"
    by (auto simp: new_copy_def split: sum.splits)
  from MakeUnique_Inr [OF m] have cc: "cc < length h" "h ! cc = None"
    "h1 = h[cc := Some (StreamConfig c)]"
    by auto
  from operator_new_Inr [OF o] have d: "d < length h1" "h1 ! d = None"
    "h2 = h1[d := Some RawStorage]"
    by auto
  from cc d have dn: "d \<noteq> cc" "d < length h" "h ! d = None"
    by (auto simp: nth_list_update split: if_splits)
  from cc dn live have ne: "this \<noteq> cc" "this \<noteq> d" "a \<noteq> cc" "a \<noteq> d" "d \<noteq> cc"
    by auto
  have le: "load_event h2 this = Inr e"
    using ne e cc d by (simp add: load_event_update)
  have de: "deref_config h2 (config e) = Inr c"
    using ne x cc d by (simp add: deref_config_update)
  from k le de obtain q where
    mq: "MakeUnique h2 c = Inr (q, h3)" and
    ed: "ed = \<lparr>timestamp_us = timestamp_us e, config = Some q\<rparr>"
    by (auto simp: RtcEventAudioSendStreamConfig_copy_ctor_def split: sum.splits)
  from MakeUnique_Inr [OF mq] have q: "q < length h2" "h2 ! q = None"
    "h3 = h2[q := Some (StreamConfig c)]"
    by auto
  from q cc d dn have nq: "q \<noteq> cc" "q \<noteq> d" and qf: "q < length h" "h ! q = None"
    by (auto simp: nth_list_update split: if_splits)
  with live have nqa: "q \<noteq> a"
    by auto
  have hd: "h' ! d = Some (Event \<lparr>timestamp_us = timestamp_us e, config = Some q\<rparr>)"
    using h' h1' q cc d ne ed by (simp add: unique_ptr_dtor_def operator_delete_def)
  have hq: "h' ! q = Some (StreamConfig c)" "h3 ! q = Some (StreamConfig c)"
    using h' h1' q cc d nq by (simp_all add: unique_ptr_dtor_def operator_delete_def)
  have ha: "h' ! a = Some (StreamConfig c)"
    using h' h1' q cc d ne nqa live by (simp add: unique_ptr_dtor_def operator_delete_def)
  have hc: "h' ! cc = None"
    using h' h1' q cc d by (simp add: unique_ptr_dtor_def operator_delete_def)
  from m o k mq hd hq ha hc qf q nq nqa ne show ?thesis
    unfolding ed by blast
qed

text \<open>
  Claim C4. For every event with a non-null payload, \<^verbatim>\<open>Copy()\<close> returns (when three cells
  are free) a new event: its cell was free before the call and is not the receiver's, it
  holds an object of class \<^verbatim>\<open>RtcEventAudioSendStreamConfig\<close>, whose type tag is
  \<^verbatim>\<open>AudioSendStreamConfig\<close>, and that object is the one the copy constructor built from
  the receiver in storage obtained from \<^verbatim>\<open>operator new\<close>. The construction is a deep copy:
  the new event carries the receiver's timestamp, and its \<^verbatim>\<open>config_\<close> points to a cell \<open>q\<close>
  that the copy constructor's own \<^verbatim>\<open>MakeUnique\<close> allocated, that was free before the call,
  that is neither the receiver's payload cell \<open>a\<close> nor the cell of the local
  \<^verbatim>\<open>config_copy\<close>, and that holds the contents \<open>c\<close> of the receiver's payload; the
  receiver's payload cell still holds \<open>c\<close>, and the cell of \<^verbatim>\<open>config_copy\<close> is free again.
\<close>

theorem Copy_new_event:
  assumes "live_event h this a c"
  shows "(3 \<le> free_cells h \<longrightarrow> (\<exists>d h'. Copy h this = Inr (d, h'))) \<and>
         (\<forall>d h'. Copy h this = Inr (d, h') \<longrightarrow>
            d < length h \<and> h ! d = None \<and> d \<noteq> this \<and>
            (\<exists>config_copy h1 h2 h3 ed e q.
               MakeUnique h c = Inr (config_copy, h1) \<and>
               operator_new h1 = Inr (d, h2) \<and>
               RtcEventAudioSendStreamConfig_copy_ctor h2 this = Inr (ed, h3) \<and>
               h' ! d = Some (Event ed) \<and>
               fst (GetType h' d) = AudioSendStreamConfig \<and> fst (IsConfigEvent h' d) \<and>
               load_event h this = Inr e \<and>
               ed = \<lparr>timestamp_us = timestamp_us e, config = Some q\<rparr> \<and>
               MakeUnique h2 c = Inr (q, h3) \<and>
               q < length h \<and> h ! q = None \<and> q \<noteq> a \<and> q \<noteq> d \<and> q \<noteq> config_copy \<and>
               h' ! q = Some (StreamConfig c) \<and>
               h' ! a = Some (StreamConfig c) \<and>
               h' ! config_copy = None))"
proof (intro conjI allI impI)
  assume "3 \<le> free_cells h"
  with assms show "\<exists>d h'. Copy h this = Inr (d, h')"
    by (rule Copy_total)
next
  fix d h'
  assume c: "Copy h this = Inr (d, h')"
  from assms obtain e where e: "load_event h this = Inr e"
    by (cases "load_event h this") (auto simp: live_event_def)
  from Copy_result [OF assms e c] show "d < length h" "h ! d = None"
    by auto
  with assms show "d \<noteq> this"
    by (auto simp: live_event_iff)
  from Copy_steps [OF assms e c] e
  show "\<exists>config_copy h1 h2 h3 ed e q.
               MakeUnique h c = Inr (config_copy, h1) \<and>
               operator_new h1 = Inr (d, h2) \<and>
               RtcEventAudioSendStreamConfig_copy_ctor h2 this = Inr (ed, h3) \<and>
               h' ! d = Some (Event ed) \<and>
               fst (GetType h' d) = AudioSendStreamConfig \<and> fst (IsConfigEvent h' d) \<and>
               load_event h this = Inr e \<and>
               ed = \<lparr>timestamp_us = timestamp_us e, config = Some q\<rparr> \<and>
               MakeUnique h2 c = Inr (q, h3) \<and>
               q < length h \<and> h ! q = None \<and> q \<noteq> a \<and> q \<noteq> d \<and> q \<noteq> config_copy \<and>
               h' ! q = Some (StreamConfig c) \<and>
               h' ! a = Some (StreamConfig c) \<and>
               h' ! config_copy = None"
    by (simp add: GetType_def IsConfigEvent_def) blast
qed

theorem Copy_new_event_witness:
  "live_event scenario_heap 0 1 scenario_payload \<and> 3 \<le> free_cells scenario_heap \<and>
   load_event scenario_heap 0 = Inr \<lparr>timestamp_us = 1000, config = Some 1\<rparr> \<and>
   (\<exists>d h' q. Copy scenario_heap 0 = Inr (d, h') \<and> scenario_heap ! d = None \<and>
      h' ! d = Some (Event \<lparr>timestamp_us = 1000, config = Some q\<rparr>) \<and>
      q \<noteq> 1 \<and> scenario_heap ! q = None \<and>
      h' ! q = Some (StreamConfig scenario_payload) \<and>
      h' ! 1 = Some (StreamConfig scenario_payload))"
proof -
  have l: "live_event scenario_heap 0 1 scenario_payload" and f: "3 \<le> free_cells scenario_heap"
    and e: "load_event scenario_heap 0 = Inr \<lparr>timestamp_us = 1000, config = Some 1\<rparr>"
    by (simp_all add: scenario_defs)
  from Copy_new_event [OF l] f obtain d h' where c: "Copy scenario_heap 0 = Inr (d, h')"
    by blast
  from Copy_new_event [OF l] c e
  have "\<exists>q. scenario_heap ! d = None \<and>
      h' ! d = Some (Event \<lparr>timestamp_us = 1000, config = Some q\<rparr>) \<and>
      q \<noteq> 1 \<and> scenario_heap ! q = None \<and>
      h' ! q = Some (StreamConfig scenario_payload) \<and>
      h' ! 1 = Some (StreamConfig scenario_payload)"
    by fastforce
  with l f e c show ?thesis
    by blast
qed


section \<open>Construction\<close>

lemma ctor_fields:
  "RtcEventAudioSendStreamConfig_ctor now p = (\<lparr>timestamp_us = now, config = p\<rparr>, None)"
  by (simp add: RtcEventAudioSendStreamConfig_ctor_def unique_ptr_move_def)

lemma ctor_stored:
  assumes n: "operator_new h = Inr (x, h0)" and d: "deref_config h (Some a) = Inr c"
  shows "live_event (h0[x := Some (Event \<lparr>timestamp_us = now, config = Some a\<rparr>)]) x a c \<and>
         h0[x := Some (Event \<lparr>timestamp_us = now, config = Some a\<rparr>)] ! a = h ! a \<and>
         live_cells_kept h (h0[x := Some (Event \<lparr>timestamp_us = now, config = Some a\<rparr>)]) \<and>
         Suc (free_cells (h0[x := Some (Event \<lparr>timestamp_us = now, config = Some a\<rparr>)])) =
           free_cells h"
proof -
  from operator_new_Inr [OF n] have x: "x < length h" "h ! x = None" "h0 = h[x := Some RawStorage]"
    by auto
  from d have a: "a < length h" "h ! a = Some (StreamConfig c)"
    by (auto simp: deref_config_Inr)
  with x have ne: "a \<noteq> x"
    by auto
  let ?h1 = "h[x := Some (Event \<lparr>timestamp_us = now, config = Some a\<rparr>)]"
  have h1: "h0[x := Some (Event \<lparr>timestamp_us = now, config = Some a\<rparr>)] = ?h1"
    using x by simp
  have "live_event ?h1 x a c"
    using x a ne by (simp add: live_event_iff)
  moreover have "?h1 ! a = h ! a"
    using ne by simp
  moreover have "live_cells_kept h ?h1"
    using x by (auto simp: live_cells_kept_iff nth_list_update)
  moreover have "Suc (free_cells ?h1) = free_cells h"
    using x by (intro free_cells_fill) auto
  ultimately show ?thesis
    unfolding h1 by blast
qed

text \<open>
  Claim C7. The ownership-taking constructor transfers the caller's payload into the event
  without copying or altering it: the event's \<^verbatim>\<open>config_\<close> is exactly the pointer \<open>p\<close> passed
  in, and the pointer it was moved from is left null, so that the event is the sole owner.
  Once the event is built in storage from \<^verbatim>\<open>operator new\<close>, it owns the payload at the
  address the caller had, the payload cell and every other live cell are what they were,
  and exactly one cell (the event's own) has been taken: no copy of the payload was made.
\<close>

theorem ctor_takes_ownership:
  assumes "RtcEventAudioSendStreamConfig_ctor now p = (e, p_after)"
  shows "config e = p \<and> timestamp_us e = now \<and> p_after = None \<and>
         (operator_new h = Inr (x, h0) \<longrightarrow> p = Some a \<longrightarrow> deref_config h p = Inr c \<longrightarrow>
              live_event (h0[x := Some (Event e)]) x a c \<and>
              h0[x := Some (Event e)] ! a = h ! a \<and>
              live_cells_kept h (h0[x := Some (Event e)]) \<and>
              Suc (free_cells (h0[x := Some (Event e)])) = free_cells h)"
proof -
  from assms have e: "e = \<lparr>timestamp_us = now, config = p\<rparr>" and p: "p_after = None"
    by (simp_all add: ctor_fields)
  then show ?thesis
    using ctor_stored [of h x h0 a c now] by auto
qed

theorem ctor_takes_ownership_witness:
  "\<exists>e x h0. RtcEventAudioSendStreamConfig_ctor 1000 (Some 1) = (e, None) \<and>
     operator_new [None, Some (StreamConfig scenario_payload), None] = Inr (x, h0) \<and>
     deref_config [None, Some (StreamConfig scenario_payload), None] (Some 1)
       = Inr scenario_payload \<and>
     config e = Some 1 \<and>
     live_event (h0[x := Some (Event e)]) x 1 scenario_payload \<and>
     free_cells (h0[x := Some (Event e)]) = 1"
proof -
  let ?h = "[None, Some (StreamConfig scenario_payload), None]"
  obtain e where c: "RtcEventAudioSendStreamConfig_ctor 1000 (Some 1) = (e, None)"
    by (simp add: ctor_fields)
  obtain x h0 where n: "operator_new ?h = Inr (x, h0)"
    by (simp add: operator_new_def)
  have d: "deref_config ?h (Some 1) = Inr scenario_payload"
    by (simp add: deref_config_def)
  have f: "free_cells ?h = 2"
    by (simp add: free_cells_def)
  from ctor_takes_ownership [OF c, of ?h x h0 1 scenario_payload] n d
  have "config e = Some 1 \<and> live_event (h0[x := Some (Event e)]) x 1 scenario_payload \<and>
        Suc (free_cells (h0[x := Some (Event e)])) = free_cells ?h"
    by simp
  with c n d f show ?thesis
    by auto
qed


section \<open>Null payloads\<close>

lemma Copy_null:
  "load_event h this = Inr e \<Longrightarrow> config e = None \<Longrightarrow> Copy h this = Inl NullDereference"
  by (simp add: Copy_def deref_config_def)

lemma copy_ctor_null:
  "load_event h this = Inr e \<Longrightarrow> config e = None \<Longrightarrow>
     RtcEventAudioSendStreamConfig_copy_ctor h this = Inl NullDereference"
  by (simp add: RtcEventAudioSendStreamConfig_copy_ctor_def deref_config_def)

lemma live_event_fields:
  "live_event h this a c \<Longrightarrow>
     \<exists>e. load_event h this = Inr e \<and> config e = Some a \<and> deref_config h (config e) = Inr c"
  by (cases "load_event h this") (auto simp: live_event_def)

text \<open>
  Claim C10. Neither constructor checks the payload for null, and \<^verbatim>\<open>Copy()\<close> and the copy
  constructor dereference the receiver's payload unconditionally. Construction from a null
  pointer succeeds and yields an event whose \<^verbatim>\<open>config_\<close> is null; on such an event
  \<^verbatim>\<open>Copy()\<close> and the copy constructor reach the dereference with a null pointer. On an
  event whose payload is non-null and live the dereference yields the payload, neither
  function stops on a null or invalid pointer, and \<^verbatim>\<open>Copy()\<close> returns when three cells are
  free.
\<close>

theorem null_payload_unchecked:
  "RtcEventAudioSendStreamConfig_ctor now None = (\<lparr>timestamp_us = now, config = None\<rparr>, None) \<and>
   (\<forall>e. load_event h this = Inr e \<longrightarrow> config e = None \<longrightarrow>
        Copy h this = Inl NullDereference \<and>
        RtcEventAudioSendStreamConfig_copy_ctor h this = Inl NullDereference) \<and>
   (\<forall>a c. live_event h this a c \<longrightarrow>
        (\<exists>e. load_event h this = Inr e \<and> config e = Some a \<and>
             deref_config h (config e) = Inr c) \<and>
        Copy h this \<noteq> Inl NullDereference \<and> Copy h this \<noteq> Inl InvalidPointer \<and>
        RtcEventAudioSendStreamConfig_copy_ctor h this \<noteq> Inl NullDereference \<and>
        RtcEventAudioSendStreamConfig_copy_ctor h this \<noteq> Inl InvalidPointer \<and>
        (3 \<le> free_cells h \<longrightarrow> (\<exists>d h'. Copy h this = Inr (d, h'))))"
  using Copy_null [of h this] copy_ctor_null [of h this] live_event_fields [of h this]
    Copy_Inl [of h this] copy_ctor_Inl [of h this] Copy_total [of h this]
  by (simp add: ctor_fields) blast

theorem null_payload_unchecked_witness:
  "(\<exists>e. RtcEventAudioSendStreamConfig_ctor 1000 None = (e, None) \<and>
        load_event null_heap 0 = Inr e \<and> config e = None) \<and>
   Copy null_heap 0 = Inl NullDereference \<and>
   RtcEventAudioSendStreamConfig_copy_ctor null_heap 0 = Inl NullDereference \<and>
   live_event scenario_heap 0 1 scenario_payload \<and> 3 \<le> free_cells scenario_heap \<and>
   (\<exists>d h'. Copy scenario_heap 0 = Inr (d, h'))"
proof -
  have e: "load_event null_heap 0 = Inr \<lparr>timestamp_us = 1000, config = None\<rparr>"
    by (simp add: null_heap_def load_event_def ctor_fields)
  have l: "live_event scenario_heap 0 1 scenario_payload" and f: "3 \<le> free_cells scenario_heap"
    by (simp_all add: scenario_defs)
  from null_payload_unchecked [of 1000 null_heap 0] e
  have "Copy null_heap 0 = Inl NullDereference \<and>
        RtcEventAudioSendStreamConfig_copy_ctor null_heap 0 = Inl NullDereference"
    by simp
  moreover from null_payload_unchecked [of 1000 scenario_heap 0] l f
  have "\<exists>d h'. Copy scenario_heap 0 = Inr (d, h')"
    by blast
  ultimately show ?thesis
    using e l f by (simp add: ctor_fields)
qed


section \<open>Failures\<close>

lemma copy_ctor_total:
  assumes "live_event h other a c" "0 < free_cells h"
  shows "\<exists>d h'. RtcEventAudioSendStreamConfig_copy_ctor h other = Inr (d, h')"
proof -
  from MakeUnique_total [OF assms(2), of c]
  obtain q where q: "MakeUnique h c = Inr (q, h[q := Some (StreamConfig c)])" ..
  from live_event_fields [OF assms(1)] obtain e where
    "load_event h other = Inr e" "deref_config h (config e) = Inr c"
    by blast
  with q show ?thesis
    by (simp add: RtcEventAudioSendStreamConfig_copy_ctor_def)
qed

lemma Copy_returns_iff:
  assumes "live_event h this a c"
  shows "(\<exists>d h'. Copy h this = Inr (d, h')) = (3 \<le> free_cells h)"
  using Copy_total [OF assms] Copy_needs_three [of h this] by blast

lemma Copy_outcome:
  assumes "live_event h this a c"
  shows "if 3 \<le> free_cells h then (\<exists>d h'. Copy h this = Inr (d, h'))
         else Copy h this = Inl OutOfMemory"
proof (cases "3 \<le> free_cells h")
  case True
  with Copy_total [OF assms] show ?thesis
    by simp
next
  case False
  with Copy_returns_iff [OF assms] obtain f where "Copy h this = Inl f"
    by (cases "Copy h this") auto
  with Copy_Inl [OF assms] False show ?thesis
    by simp
qed

lemma copy_ctor_outcome:
  assumes "live_event h this a c"
  shows "if 1 \<le> free_cells h
         then (\<exists>ed h'. RtcEventAudioSendStreamConfig_copy_ctor h this = Inr (ed, h'))
         else RtcEventAudioSendStreamConfig_copy_ctor h this = Inl OutOfMemory"
proof (cases "1 \<le> free_cells h")
  case True
  with copy_ctor_total [OF assms] show ?thesis
    by simp
next
  case False
  then have z: "free_cells h = 0"
    by simp
  then have "MakeUnique h c = Inl OutOfMemory"
    by (simp add: MakeUnique_def operator_new_def find_free_None [symmetric])
  with live_event_fields [OF assms] False show ?thesis
    by (auto simp: RtcEventAudioSendStreamConfig_copy_ctor_def)
qed

lemma live_event_other_contents:
  "live_event h this a c \<Longrightarrow> live_event (h[a := Some (StreamConfig c')]) this a c' \<and>
     free_cells (h[a := Some (StreamConfig c')]) = free_cells h"
  by (auto simp: live_event_iff nth_list_update intro: free_cells_overwrite)

text \<open>
  Claim C8, as stated, fails on an event built from a null payload: construction succeeds,
  three cells are free, and \<^verbatim>\<open>Copy()\<close> stops at the dereference of the null pointer, which
  is no allocation failure.
\<close>

theorem Copy_null_payload_fails:
  "load_event null_heap 0 = Inr (fst (RtcEventAudioSendStreamConfig_ctor 1000 None)) \<and>
   3 \<le> free_cells null_heap \<and>
   Copy null_heap 0 = Inl NullDereference"
  by (simp add: scenario_defs)

text \<open>
  Claim C8, amended. No operation validates the payload or fails with a recoverable error:
  for every non-null payload, of arbitrary contents \<open>c\<close>, construction succeeds, and
  \<^verbatim>\<open>GetType\<close>, \<^verbatim>\<open>IsConfigEvent\<close> and \<^verbatim>\<open>Copy\<close> yield no error result. The only failure of
  \<^verbatim>\<open>Copy\<close> and of the copy constructor is that of the allocation, which stops the program:
  \<^verbatim>\<open>Copy\<close> returns exactly when three cells are free, the copy constructor exactly when
  one is. Whether \<^verbatim>\<open>Copy\<close> returns does not depend on the contents: with any other
  contents \<open>c'\<close> in the payload the outcome is the same.
\<close>

theorem no_validation_no_error:
  assumes "live_event h this a c"
  shows "RtcEventAudioSendStreamConfig_ctor now (Some a) =
           (\<lparr>timestamp_us = now, config = Some a\<rparr>, None) \<and>
         GetType h this = (AudioSendStreamConfig, h) \<and>
         IsConfigEvent h this = (True, h) \<and>
         (if 3 \<le> free_cells h then (\<exists>d h'. Copy h this = Inr (d, h'))
          else Copy h this = Inl OutOfMemory) \<and>
         (if 1 \<le> free_cells h
          then (\<exists>ed h'. RtcEventAudioSendStreamConfig_copy_ctor h this = Inr (ed, h'))
          else RtcEventAudioSendStreamConfig_copy_ctor h this = Inl OutOfMemory) \<and>
         live_event (h[a := Some (StreamConfig c')]) this a c' \<and>
         (\<exists>d h'. Copy (h[a := Some (StreamConfig c')]) this = Inr (d, h')) =
           (\<exists>d h'. Copy h this = Inr (d, h'))"
proof -
  from live_event_other_contents [OF assms, of c'] have
    l: "live_event (h[a := Some (StreamConfig c')]) this a c'" and
    f: "free_cells (h[a := Some (StreamConfig c')]) = free_cells h"
    by auto
  from Copy_returns_iff [OF l] Copy_returns_iff [OF assms] f
  have "(\<exists>d h'. Copy (h[a := Some (StreamConfig c')]) this = Inr (d, h')) =
           (\<exists>d h'. Copy h this = Inr (d, h'))"
    by simp
  with Copy_outcome [OF assms] copy_ctor_outcome [OF assms] l show ?thesis
    by (simp add: ctor_fields GetType_def IsConfigEvent_def)
qed

theorem no_validation_no_error_witness:
  "live_event scenario_heap 0 1 scenario_payload \<and> 3 \<le> free_cells scenario_heap \<and>
   (\<exists>d h'. Copy scenario_heap 0 = Inr (d, h')) \<and>
   (\<exists>d h'. Copy (scenario_heap[1 := Some (StreamConfig (0, []))]) 0 = Inr (d, h'))"
proof -
  have l: "live_event scenario_heap 0 1 scenario_payload" and f: "3 \<le> free_cells scenario_heap"
    by (simp_all add: scenario_defs)
  from no_validation_no_error [OF l, of 0 "(0, [])"] f l show ?thesis
    by simp
qed


section \<open>The unused local copy\<close>















end
